theory Spec2Isabelle
  imports Complex_Main
begin

unbundle bit_operations_syntax

section \<open>The basecaller driver of slorado: data model\<close>

text \<open>
  The development follows \<^verbatim>\<open>src/basecaller_main.cpp\<close>. The driver is one C++ function,
  \<^verbatim>\<open>basecaller_main\<close>: it parses the options, checks the positional arguments, opens the
  input, and runs one loop that reads a record, basecalls it and writes it.

  Everything the function prints, opens, creates or writes is recorded as an \<open>event\<close>, in
  program order; the function's result is the list of its events and its exit status.
\<close>

datatype FILE = stdout | stderr | fopened string

datatype exit_status = EXIT_SUCCESS | EXIT_FAILURE

text \<open>
  \<^verbatim>\<open>opt_t\<close> is declared in \<^verbatim>\<open>slorado.h\<close>; the fields are those \<^verbatim>\<open>basecaller_main\<close> reads or
  writes. The integers are only stored and compared, never added, so they are \<open>int\<close>.
\<close>

record opt_t =
  num_thread :: int
  batch_size :: int
  batch_size_bytes :: int
  out_path :: string
  out :: FILE
  chunk_size :: int
  overlap :: int
  device :: string
  num_runners :: int
  debug_break :: int
  flag :: nat

text \<open>
  One return of \<^verbatim>\<open>getopt_long\<close> with a non-negative value: the value \<open>c\<close>, the value of
  \<^verbatim>\<open>longindex\<close> after the call, and \<^verbatim>\<open>optarg\<close>. A command line is the list of these
  returns, in order, followed by the positional arguments \<^verbatim>\<open>argv[optind .. argc-1]\<close>.
  A long option with a short equivalent returns that letter (\<^verbatim>\<open>--chunk-size\<close> returns
  \<open>c\<close>); the long options without one return 0 and set \<^verbatim>\<open>longindex\<close>.
\<close>

datatype getopt_ret = Getopt char nat string

record slow5_rec_t =
  read_id :: string
  raw_signal :: "int list"

text \<open>
  One return of \<^verbatim>\<open>slow5_get_next\<close>: the returned value, the value of \<^verbatim>\<open>slow5_errno\<close> after
  the call, and the record handed back (meaningful when the return value is not negative).
\<close>

record slow5_next =
  ret :: int
  slow5_errno :: int
  rec :: slow5_rec_t

type_synonym tensor = "real list"

text \<open>
  \<^verbatim>\<open>Chunk\<close> is declared outside this file. Modelled from the spec: section 3 gives a chunk
  its start offset in the normalized signal and its length, and the decoded call that goes
  with it: the called bases, their quality string and the move table (for every called
  base the time-step that emitted it).
\<close>

record Chunk =
  input_offset :: nat
  raw_chunk_size :: nat
  seq :: string
  qstring :: string
  moves :: "nat list"

datatype ModelRunner = ModelRunner string string int int

datatype event =
    ERROR string
  | WARNING string
  | Set_log_level int
  | Fprintf FILE string
  | Print_help_msg FILE opt_t
  | Print_summary string string opt_t
  | Slow5_open string
  | New_ModelRunner ModelRunner
  | Write_to_file FILE string string string bool
  | Print_performance
  | Slow5_close

text \<open>
  What \<^verbatim>\<open>basecaller_main\<close> calls and this file does not define: the C library, slow5lib,
  the helpers of \<^verbatim>\<open>misc.h\<close>, and the pipeline stages of the other source files. They are
  parameters of the model, so every theorem about the driver holds whatever they compute.
  \<open>fopen\<close> is \<^verbatim>\<open>fopen(path, "w")\<close> and \<open>slow5_open\<close> is \<^verbatim>\<open>slow5_open(path, "r")\<close>, both
  \<open>None\<close> for \<^verbatim>\<open>NULL\<close>; an opened slow5 file is the list of what the successive calls of
  \<^verbatim>\<open>slow5_get_next\<close> return. \<open>yes_or_no\<close> takes the flag word, the mask, the option's
  name and its argument and returns the new flag word. \<open>basecall_chunks\<close> updates the
  chunk vector it is given by reference; here it returns the updated vector.
\<close>

record env =
  atoi :: "string \<Rightarrow> int"
  mm_parse_num :: "string \<Rightarrow> int"
  yes_or_no :: "nat \<Rightarrow> nat \<Rightarrow> string \<Rightarrow> string \<Rightarrow> nat"
  fopen :: "string \<Rightarrow> FILE option"
  HAVE_ACC :: bool
  SLORADO_PRF :: nat
  SLORADO_ACC :: nat
  SLORADO_EFQ :: nat
  slow5_open :: "string \<Rightarrow> slow5_next list option"
  SLOW5_ERR_EOF :: int
  tensor_from_record :: "slow5_rec_t \<Rightarrow> tensor"
  trim_signal :: "tensor \<Rightarrow> int"
  scale_signal :: "tensor \<Rightarrow> tensor"
  chunks_from_tensor :: "tensor \<Rightarrow> int \<Rightarrow> int \<Rightarrow> Chunk list"
  basecall_chunks :: "tensor \<Rightarrow> Chunk list \<Rightarrow> int \<Rightarrow> int \<Rightarrow> ModelRunner \<Rightarrow> Chunk list"
  stitch_chunks :: "Chunk list \<Rightarrow> string \<times> string"

section \<open>Option parsing\<close>

text \<open>
  The name of the long option at index \<open>i\<close> of \<^verbatim>\<open>long_options\<close>, for the four indices the
  parser passes to \<^verbatim>\<open>yes_or_no\<close> or compares with.
\<close>

definition long_options_name :: "nat \<Rightarrow> string" where
  "long_options_name i =
     (if i = 7 then ''debug-break''
      else if i = 8 then ''profile-cpu''
      else if i = 9 then ''accel''
      else if i = 14 then ''emit-fastq''
      else [])"

text \<open>
  The body of the \<^verbatim>\<open>while\<close> loop over \<^verbatim>\<open>getopt_long\<close>, one branch per \<^verbatim>\<open>else if\<close>, in
  the order of the source. The state is \<^verbatim>\<open>opt\<close> and \<^verbatim>\<open>fp_help\<close>. \<open>Inl\<close> is a call of
  \<^verbatim>\<open>exit\<close>. Every numeric option is stored first and checked after, as in the source.
\<close>

fun parse_opt :: "env \<Rightarrow> getopt_ret \<Rightarrow> opt_t \<times> FILE \<Rightarrow> event list \<times> (exit_status + opt_t \<times> FILE)" where
  "parse_opt e (Getopt c longindex optarg) (opt, fp_help) =
    (if c = CHR ''B'' then
       (let opt = opt\<lparr>batch_size_bytes := mm_parse_num e optarg\<rparr> in
        if batch_size_bytes opt \<le> 0
        then ([ERROR ''Maximum number of bytes should be larger than 0.''], Inl EXIT_FAILURE)
        else ([], Inr (opt, fp_help)))
     else if c = CHR ''K'' then
       (let opt = opt\<lparr>batch_size := atoi e optarg\<rparr> in
        if batch_size opt < 1
        then ([ERROR ''Batch size should larger than 0. You entered %d''], Inl EXIT_FAILURE)
        else ([], Inr (opt, fp_help)))
     else if c = CHR ''t'' then
       (let opt = opt\<lparr>num_thread := atoi e optarg\<rparr> in
        if num_thread opt < 1
        then ([ERROR ''Number of threads should larger than 0. You entered %d''], Inl EXIT_FAILURE)
        else ([], Inr (opt, fp_help)))
     else if c = CHR ''v'' then
       ([Set_log_level (atoi e optarg)], Inr (opt, fp_help))
     else if c = CHR ''x'' then
       ([], Inr (opt\<lparr>device := optarg\<rparr>, fp_help))
     else if c = CHR ''c'' then
       (let opt = opt\<lparr>chunk_size := atoi e optarg\<rparr> in
        if chunk_size opt < 1
        then ([ERROR ''Chunk size should larger than 0. You entered %d''], Inl EXIT_FAILURE)
        else ([], Inr (opt, fp_help)))
     else if c = CHR ''p'' then
       (let opt = opt\<lparr>overlap := atoi e optarg\<rparr> in
        if overlap opt < 1
        then ([ERROR ''Overlap should larger than 0. You entered %d''], Inl EXIT_FAILURE)
        else ([], Inr (opt, fp_help)))
     else if c = CHR ''o'' then
       (case fopen e optarg of
          None \<Rightarrow> ([Fprintf stderr ''Error in opening output file''], Inl EXIT_FAILURE)
        | Some f \<Rightarrow> ([], Inr (opt\<lparr>out_path := optarg, out := f\<rparr>, fp_help)))
     else if c = CHR ''r'' then
       (let opt = opt\<lparr>num_runners := atoi e optarg\<rparr> in
        if num_runners opt < 1
        then ([ERROR ''Number of runners should larger than 0. You entered %d''], Inl EXIT_FAILURE)
        else ([], Inr (opt, fp_help)))
     else if c = CHR ''V'' then
       ([Fprintf stdout ''slorado %s''], Inl EXIT_SUCCESS)
     else if c = CHR ''h'' then
       ([], Inr (opt, stdout))
     else if c = CHR 0x00 \<and> longindex = 7 then
       ([], Inr (opt\<lparr>debug_break := atoi e optarg\<rparr>, fp_help))
     else if c = CHR 0x00 \<and> longindex = 8 then
       ([], Inr (opt\<lparr>flag := yes_or_no e (flag opt) (SLORADO_PRF e)
                                  (long_options_name longindex) optarg\<rparr>, fp_help))
     else if c = CHR 0x00 \<and> longindex = 9 then
       (if HAVE_ACC e
        then ([], Inr (opt\<lparr>flag := yes_or_no e (flag opt) (SLORADO_ACC e)
                                    (long_options_name longindex) optarg\<rparr>, fp_help))
        else ([WARNING ''--accel has no effect when compiled for the CPU''], Inr (opt, fp_help)))
     else if c = CHR 0x00 \<and> longindex = 14 then
       ([], Inr (opt\<lparr>flag := yes_or_no e (flag opt) (SLORADO_EFQ e)
                                  (long_options_name longindex) optarg\<rparr>, fp_help))
     else ([], Inr (opt, fp_help)))"

text \<open>
  The loop itself: it ends when \<^verbatim>\<open>getopt_long\<close> returns a negative value, that is when the
  list of its returns is used up, or at the first \<^verbatim>\<open>exit\<close>.
\<close>

fun parse_args :: "env \<Rightarrow> getopt_ret list \<Rightarrow> opt_t \<times> FILE \<Rightarrow> event list \<times> (exit_status + opt_t \<times> FILE)" where
  "parse_args e [] st = ([], Inr st)"
| "parse_args e (g # gs) st =
     (case parse_opt e g st of
        (tr, Inl x) \<Rightarrow> (tr, Inl x)
      | (tr, Inr st') \<Rightarrow> (case parse_args e gs st' of (tr', r) \<Rightarrow> (tr @ tr', r)))"

section \<open>The read loop\<close>

text \<open>
  \<^verbatim>\<open>signal.index({Slice(trim_start, None)})\<close>: the samples from \<open>start\<close> on; a negative
  \<open>start\<close> counts from the end of the tensor, and the result is clipped to the tensor.
  \<^verbatim>\<open>Slice(None, 8000)\<close> is \<open>take 8000\<close>.
\<close>

definition slice_from :: "int \<Rightarrow> 'a list \<Rightarrow> 'a list" where
  "slice_from start xs =
     (if 0 \<le> start then drop (nat start) xs else drop (length xs - nat (- start)) xs)"

text \<open>
  One iteration of the loop after a record was read, in three steps. First the record
  becomes a tensor, its first 8000 samples give the trim position, and the signal from
  there on is scaled in place.
\<close>

definition normalized_signal :: "env \<Rightarrow> slow5_rec_t \<Rightarrow> tensor" where
  "normalized_signal e r =
     (let signal = tensor_from_record e r;
          trim_start = trim_signal e (take 8000 signal);
          signal = slice_from trim_start signal
      in scale_signal e signal)"

text \<open>
  Then the signal is split into chunks, and \<^verbatim>\<open>basecall_chunks\<close> fills in the chunks' calls.
\<close>

definition called_chunks :: "env \<Rightarrow> opt_t \<Rightarrow> ModelRunner \<Rightarrow> tensor \<Rightarrow> Chunk list" where
  "called_chunks e opt model_runner signal =
     (let chunks = chunks_from_tensor e signal (chunk_size opt) (overlap opt)
      in basecall_chunks e signal chunks (chunk_size opt) (batch_size opt) model_runner)"

text \<open>
  Last the chunks are stitched and the read is written. The result is the call of
  \<^verbatim>\<open>write_to_file\<close>. The timers around each stage and the sample counter only feed the
  performance summary and are left out.
\<close>

definition basecall_read :: "env \<Rightarrow> opt_t \<Rightarrow> ModelRunner \<Rightarrow> slow5_rec_t \<Rightarrow> event" where
  "basecall_read e opt model_runner r =
     (let signal = normalized_signal e r;
          chunks = called_chunks e opt model_runner signal;
          (sequence, qstring) = stitch_chunks e chunks
      in Write_to_file (out opt) sequence qstring (read_id r) ((flag opt AND SLORADO_EFQ e) \<noteq> 0))"

text \<open>
  How the \<^verbatim>\<open>while (1)\<close> loop is left: by \<^verbatim>\<open>return EXIT_FAILURE\<close>, or by \<^verbatim>\<open>break\<close> with the
  last value of \<^verbatim>\<open>ret\<close>.
\<close>

datatype loop_exit = Return exit_status | Break int

text \<open>
  The loop over the returns of \<^verbatim>\<open>slow5_get_next\<close>. It only ends at a negative return; when
  the list holds none the loop has not ended within it, and the result is \<open>None\<close>.
\<close>

fun read_loop :: "env \<Rightarrow> opt_t \<Rightarrow> ModelRunner \<Rightarrow> slow5_next list \<Rightarrow> (event list \<times> loop_exit) option" where
  "read_loop e opt model_runner [] = None"
| "read_loop e opt model_runner (n # ns) =
     (if ret n < 0 then
        (if slow5_errno n \<noteq> SLOW5_ERR_EOF e then Some ([], Return EXIT_FAILURE)
         else Some ([], Break (ret n)))
      else
        (case read_loop e opt model_runner ns of
           None \<Rightarrow> None
         | Some (tr, x) \<Rightarrow> Some (basecall_read e opt model_runner (rec n) # tr, x)))"

text \<open>
  From the summary to the end of \<^verbatim>\<open>basecaller_main\<close>: open the slow5 file, create the model
  runner, run the loop, check how it ended.
\<close>

definition run_reads :: "env \<Rightarrow> opt_t \<Rightarrow> string \<Rightarrow> string \<Rightarrow> (event list \<times> exit_status) option" where
  "run_reads e opt model data =
     (case slow5_open e data of
        None \<Rightarrow>
          Some ([Print_summary model data opt, Slow5_open data,
                 Fprintf stderr ''Error in opening slow5 file''], EXIT_FAILURE)
      | Some sp \<Rightarrow>
          (let model_runner = ModelRunner model (device opt) (chunk_size opt) (batch_size opt);
               tr0 = [Print_summary model data opt, Slow5_open data, New_ModelRunner model_runner]
           in case read_loop e opt model_runner sp of
                None \<Rightarrow> None
              | Some (tr, Return x) \<Rightarrow> Some (tr0 @ tr, x)
              | Some (tr, Break r) \<Rightarrow>
                  if r \<noteq> SLOW5_ERR_EOF e
                  then Some (tr0 @ tr @
                         [Fprintf stderr ''Could not reach end of slow5 file. Error code %d''],
                         EXIT_FAILURE)
                  else Some (tr0 @ tr @ [Print_performance, Slow5_close], EXIT_SUCCESS)))"

text \<open>
  The help message and the exit that follows it, the same three lines at each of the
  three places of the source.
\<close>

definition help_and_exit :: "FILE \<Rightarrow> opt_t \<Rightarrow> event list \<times> exit_status" where
  "help_and_exit fp_help opt =
     ([Print_help_msg fp_help opt], if fp_help = stdout then EXIT_SUCCESS else EXIT_FAILURE)"

text \<open>
  \<^verbatim>\<open>basecaller_main\<close>. \<open>opt0\<close> is what \<^verbatim>\<open>init_opt\<close> leaves in \<^verbatim>\<open>opt\<close>, \<open>gs\<close> the returns of
  \<^verbatim>\<open>getopt_long\<close> and \<open>args\<close> the positional arguments, \<open>None\<close> for a null pointer.
\<close>

definition basecaller_main :: "env \<Rightarrow> opt_t \<Rightarrow> getopt_ret list \<Rightarrow> string option list \<Rightarrow> (event list \<times> exit_status) option" where
  "basecaller_main e opt0 gs args =
     (case parse_args e gs (opt0, stderr) of
        (tr, Inl x) \<Rightarrow> Some (tr, x)
      | (tr, Inr (opt, fp_help)) \<Rightarrow>
          if length args \<noteq> 2 \<or> fp_help = stdout then
            (case help_and_exit fp_help opt of (tr', x) \<Rightarrow> Some (tr @ tr', x))
          else
            (case args ! 0 of
               None \<Rightarrow> (case help_and_exit fp_help opt of (tr', x) \<Rightarrow> Some (tr @ tr', x))
             | Some model \<Rightarrow>
                 (case args ! 1 of
                    None \<Rightarrow> (case help_and_exit fp_help opt of (tr', x) \<Rightarrow> Some (tr @ tr', x))
                  | Some data \<Rightarrow>
                      (case run_reads e opt model data of
                         None \<Rightarrow> None
                       | Some (tr', x) \<Rightarrow> Some (tr @ tr', x)))))"

section \<open>What a run did\<close>

text \<open>
  Three readings of a run's events: the reads written, as read id, sequence and quality
  string; the model runners created; the slow5 files opened.
\<close>

fun written :: "event list \<Rightarrow> (string \<times> string \<times> string) list" where
  "written [] = []"
| "written (Write_to_file f sequence qstr rid fq # tr) = (rid, sequence, qstr) # written tr"
| "written (ev # tr) = written tr"

fun runners_created :: "event list \<Rightarrow> ModelRunner list" where
  "runners_created [] = []"
| "runners_created (New_ModelRunner r # tr) = r # runners_created tr"
| "runners_created (ev # tr) = runners_created tr"

fun inputs_opened :: "event list \<Rightarrow> string list" where
  "inputs_opened [] = []"
| "inputs_opened (Slow5_open path # tr) = path # inputs_opened tr"
| "inputs_opened (ev # tr) = inputs_opened tr"

section \<open>The stages behind the driver, from the specification\<close>

text \<open>
  \<^verbatim>\<open>chunks_from_tensor\<close> and \<^verbatim>\<open>stitch_chunks\<close> are called by the driver and defined in
  other source files. The definitions of this section follow the specification's
  sections 4.2, 4.3 and 4.5; the driver above does not depend on them. The signal scaling and
  the two decoders compute on floating-point tensors and have no definition here.
\<close>

subsection \<open>Chunker\<close>

text \<open>
  Modelled from the spec: the constructor of \<^verbatim>\<open>Chunk\<close> is missing from the sources. A chunk
  as the chunker makes it (section 3): a start offset and a length, and no call yet.
\<close>

definition new_chunk :: "nat \<Rightarrow> nat \<Rightarrow> Chunk" where
  "new_chunk offset len =
     \<lparr>input_offset = offset, raw_chunk_size = len, seq = [], qstring = [], moves = []\<rparr>"

text \<open>
  Modelled from the spec: \<^verbatim>\<open>chunks_from_tensor\<close> (section 4.2) is missing from the sources.
  Start at offset 0, step forward by \<open>C - ov\<close> each iteration, clip the final chunk's length
  to the remaining samples, without padding. The final chunk is the first one whose window
  of \<open>C\<close> samples reaches the end of the signal. With \<open>ov \<ge> C\<close> the step is not positive and
  the iteration need not end, so the result is an option, \<open>None\<close> when it does not end.
\<close>

partial_function (option) chunks_from :: "nat \<Rightarrow> nat \<Rightarrow> nat \<Rightarrow> nat \<Rightarrow> Chunk list option" where
  "chunks_from len C ov offset =
     (if len \<le> offset + C then Some [new_chunk offset (len - offset)]
      else Option.bind (chunks_from len C ov (offset + (C - ov)))
             (\<lambda>cs. Some (new_chunk offset C # cs)))"

text \<open>
  Modelled from the spec: \<^verbatim>\<open>chunks_from_tensor\<close> (section 4.2) is missing from the sources.
  The chunker takes the normalized signal, the chunk length and the overlap length; only
  the signal's length matters for the chunks' offsets and lengths, and the iteration starts
  at offset 0.
\<close>

definition chunks_from_tensor_spec :: "tensor \<Rightarrow> nat \<Rightarrow> nat \<Rightarrow> Chunk list option" where
  "chunks_from_tensor_spec signal C ov = chunks_from (length signal) C ov 0"

subsection \<open>Basecalling the chunks\<close>


subsection \<open>Stitcher\<close>

text \<open>
  Modelled from the spec: the move table (glossary) maps each called base to the time-step
  that emitted it; this is the number of bases a move table emits before time-step \<open>t\<close>.
\<close>

definition bases_before :: "nat list \<Rightarrow> nat \<Rightarrow> nat" where
  "bases_before mv t = length (filter (\<lambda>m. m < t) mv)"

text \<open>
  Modelled from the spec: \<^verbatim>\<open>stitch_chunks\<close> (section 4.5) is missing from the sources. The
  search for the cut point is the pure function \<open>find_cut\<close> of the design notes, from two
  neighbouring calls and the overlap length to the cut; the specification leaves its rule
  open, so it is a parameter. The cut is given as a time-step of the earlier chunk and the
  time-step of the later chunk at the same samples. At each boundary the earlier chunk
  keeps its calls up to the cut and the later chunk its calls from the cut onward; the
  quality characters follow their bases; the first chunk's leading calls and the last
  chunk's trailing calls are never trimmed; the output is the concatenation in chunk
  order. \<open>start\<close> is the number of leading bases the cut before this chunk has dropped.
\<close>

fun stitch_from :: "(Chunk \<Rightarrow> Chunk \<Rightarrow> nat \<Rightarrow> nat \<times> nat) \<Rightarrow> nat \<Rightarrow> nat \<Rightarrow> Chunk list \<Rightarrow> string \<times> string" where
  "stitch_from find_cut ov start [] = ([], [])"
| "stitch_from find_cut ov start [c] = (drop start (seq c), drop start (qstring c))"
| "stitch_from find_cut ov start (c # d # cs) =
     (case find_cut c d ov of (t1, t2) \<Rightarrow>
        (let stop = bases_before (moves c) t1 in
         case stitch_from find_cut ov (bases_before (moves d) t2) (d # cs) of (s, q) \<Rightarrow>
           (drop start (take stop (seq c)) @ s, drop start (take stop (qstring c)) @ q)))"

text \<open>
  Modelled from the spec: \<^verbatim>\<open>stitch_chunks\<close> (section 4.5) is missing from the sources.
  Given a read's calls in chunk order it produces one sequence and one quality string;
  the first chunk is not trimmed at its start.
\<close>

definition stitch_chunks_spec :: "(Chunk \<Rightarrow> Chunk \<Rightarrow> nat \<Rightarrow> nat \<times> nat) \<Rightarrow> nat \<Rightarrow> Chunk list \<Rightarrow> string \<times> string" where
  "stitch_chunks_spec find_cut ov chunks = stitch_from find_cut ov 0 chunks"

section \<open>An environment to run the driver in\<close>

text \<open>
  A small instance of the driver's parameters, to evaluate the driver on concrete command
  lines and files: \<^verbatim>\<open>atoi\<close> on an optional minus sign and decimal digits, an output
  that always opens, one slow5 file whatever the path, and the two stages above.
\<close>

fun digits_val :: "int \<Rightarrow> string \<Rightarrow> int" where
  "digits_val acc [] = acc"
| "digits_val acc (ch # s) =
     (if 48 \<le> (of_char ch :: nat) \<and> (of_char ch :: nat) \<le> 57
      then digits_val (10 * acc + (int (of_char ch) - 48)) s
      else acc)"

fun atoi_dec :: "string \<Rightarrow> int" where
  "atoi_dec [] = 0"
| "atoi_dec (ch # s) = (if ch = CHR ''-'' then - digits_val 0 s else digits_val 0 (ch # s))"

definition midpoint_cut :: "Chunk \<Rightarrow> Chunk \<Rightarrow> nat \<Rightarrow> nat \<times> nat" where
  "midpoint_cut c d ov = (raw_chunk_size c - ov div 2, ov - ov div 2)"

definition example_env :: "slow5_next list \<Rightarrow> env" where
  "example_env sp =
     \<lparr>atoi = atoi_dec,
      mm_parse_num = atoi_dec,
      yes_or_no = (\<lambda>fl mask name arg. if arg = ''yes'' then fl OR mask else fl - (fl AND mask)),
      fopen = (\<lambda>path. Some (fopened path)),
      HAVE_ACC = False,
      SLORADO_PRF = 1,
      SLORADO_ACC = 2,
      SLORADO_EFQ = 4,
      slow5_open = (\<lambda>path. Some sp),
      SLOW5_ERR_EOF = - 1,
      tensor_from_record = (\<lambda>r. map real_of_int (raw_signal r)),
      trim_signal = (\<lambda>signal. 0),
      scale_signal = (\<lambda>signal. map (\<lambda>x. x - 1) signal),
      chunks_from_tensor = (\<lambda>signal C ov.
         case chunks_from_tensor_spec signal (nat C) (nat ov) of None \<Rightarrow> [] | Some cs \<Rightarrow> cs),
      basecall_chunks = (\<lambda>signal chunks C B runner.
         map (\<lambda>c. c\<lparr>seq := replicate (raw_chunk_size c) CHR ''A'',
                    qstring := replicate (raw_chunk_size c) CHR ''5'',
                    moves := [0 ..< raw_chunk_size c]\<rparr>) chunks),
      stitch_chunks = (\<lambda>chunks. stitch_chunks_spec midpoint_cut 2 chunks)\<rparr>"



definition example_opt :: opt_t where
  "example_opt =
     \<lparr>num_thread = 8, batch_size = 512, batch_size_bytes = 20000000, out_path = ''-'',
      out = stdout, chunk_size = 8000, overlap = 150, device = ''cpu'', num_runners = 1,
      debug_break = 0, flag = 0\<rparr>"

definition example_read :: "string \<Rightarrow> int list \<Rightarrow> slow5_next" where
  "example_read name samples = \<lparr>ret = 0, slow5_errno = 0, rec = \<lparr>read_id = name, raw_signal = samples\<rparr>\<rparr>"

definition example_error :: slow5_next where
  "example_error = \<lparr>ret = - 5, slow5_errno = - 5, rec = \<lparr>read_id = [], raw_signal = []\<rparr>\<rparr>"

definition example_eof :: slow5_next where
  "example_eof = \<lparr>ret = - 1, slow5_errno = - 1, rec = \<lparr>read_id = [], raw_signal = []\<rparr>\<rparr>"

section \<open>Properties of option parsing\<close>

lemma written_append: "written (a @ b) = written a @ written b"
  by (induction a rule: written.induct) simp_all

lemma runners_created_append: "runners_created (a @ b) = runners_created a @ runners_created b"
  by (induction a rule: runners_created.induct) simp_all

lemma inputs_opened_append: "inputs_opened (a @ b) = inputs_opened a @ inputs_opened b"
  by (induction a rule: inputs_opened.induct) simp_all

lemma parse_args_append:
  "parse_args e (xs @ ys) st =
     (case parse_args e xs st of
        (tr, Inl x) \<Rightarrow> (tr, Inl x)
      | (tr, Inr st') \<Rightarrow> (case parse_args e ys st' of (tr', r) \<Rightarrow> (tr @ tr', r)))"
  by (induction xs arbitrary: st) (auto split: prod.splits sum.splits)

lemma parse_opt_reject:
  assumes "c \<in> {CHR ''c'', CHR ''p'', CHR ''K''}" and "atoi e arg < 1"
  shows "\<exists>msg. parse_opt e (Getopt c li arg) (opt, fp) = ([ERROR msg], Inl EXIT_FAILURE)"
proof -
  from assms(1) consider "c = CHR ''c''" | "c = CHR ''p''" | "c = CHR ''K''" by blast
  then show ?thesis
  proof cases
    case 1 then show ?thesis using assms(2) by simp
  next
    case 2 then show ?thesis using assms(2) by simp
  next
    case 3 then show ?thesis using assms(2) by simp
  qed
qed

lemma parse_opt_accept:
  assumes "c \<in> {CHR ''c'', CHR ''p'', CHR ''K''}" and "1 \<le> atoi e arg"
  shows "\<exists>opt'. parse_opt e (Getopt c li arg) (opt, fp) = ([], Inr (opt', fp))"
proof -
  from assms(1) consider "c = CHR ''c''" | "c = CHR ''p''" | "c = CHR ''K''" by blast
  then show ?thesis
  proof cases
    case 1 then show ?thesis using assms(2) by simp
  next
    case 2 then show ?thesis using assms(2) by simp
  next
    case 3 then show ?thesis using assms(2) by simp
  qed
qed

lemma parse_opt_fp_help:
  assumes "parse_opt e (Getopt c li arg) (opt, fp) = (tr, Inr (opt', fp'))"
  shows "fp' = (if c = CHR ''h'' then stdout else fp)"
  using assms by (simp add: Let_def split: if_splits option.splits)

lemma parse_opt_quiet:
  assumes "parse_opt e (Getopt c li arg) (opt, fp) = (tr, r)"
  shows "written tr = [] \<and> runners_created tr = [] \<and> inputs_opened tr = []"
  using assms by (auto simp add: Let_def split: if_splits option.splits)

lemmas example_defs =
  example_env_def example_opt_def example_read_def example_eof_def example_error_def

lemmas driver_defs =
  basecaller_main_def run_reads_def help_and_exit_def basecall_read_def called_chunks_def
  normalized_signal_def slice_from_def

lemmas stage_defs =
  chunks_from_tensor_spec_def chunks_from.simps new_chunk_def stitch_chunks_spec_def
  midpoint_cut_def bases_before_def

declare parse_opt.simps [simp del]

lemma parse_args_accept:
  assumes "\<forall>g \<in> set gs. \<exists>c li arg. g = Getopt c li arg \<and> c \<in> {CHR ''c'', CHR ''p'', CHR ''K''} \<and> 1 \<le> atoi e arg"
  shows "\<exists>opt'. parse_args e gs (opt, fp) = ([], Inr (opt', fp))"
  using assms
proof (induction gs arbitrary: opt)
  case Nil
  then show ?case by simp
next
  case (Cons g gs)
  then obtain c li arg where g: "g = Getopt c li arg" "c \<in> {CHR ''c'', CHR ''p'', CHR ''K''}" "1 \<le> atoi e arg"
    by auto
  from parse_opt_accept [OF g(2) g(3)] obtain opt1 where
    "parse_opt e (Getopt c li arg) (opt, fp) = ([], Inr (opt1, fp))" by blast
  moreover from Cons obtain opt2 where "parse_args e gs (opt1, fp) = ([], Inr (opt2, fp))"
    by auto
  ultimately show ?case using g(1) by simp
qed

lemma parse_args_fp_help:
  assumes "parse_args e gs (opt, fp) = (tr, Inr (opt', fp'))"
  shows "fp' = (if \<exists>li arg. Getopt CHR ''h'' li arg \<in> set gs then stdout else fp)"
  using assms
proof (induction gs arbitrary: opt fp tr)
  case Nil
  then show ?case by simp
next
  case (Cons g gs)
  obtain c li arg where g: "g = Getopt c li arg" by (cases g)
  from Cons.prems obtain tr1 opt1 fp1 tr2 where
    s1: "parse_opt e g (opt, fp) = (tr1, Inr (opt1, fp1))" and
    s2: "parse_args e gs (opt1, fp1) = (tr2, Inr (opt', fp'))"
    by (auto split: prod.splits sum.splits)
  from s1 g have f1: "fp1 = (if c = CHR ''h'' then stdout else fp)"
    using parse_opt_fp_help by blast
  from Cons.IH [OF s2] have
    f2: "fp' = (if \<exists>li arg. Getopt CHR ''h'' li arg \<in> set gs then stdout else fp1)" .
  show ?case using f1 f2 g by auto
qed

lemma parse_args_quiet:
  assumes "parse_args e gs st = (tr, r)"
  shows "written tr = [] \<and> runners_created tr = [] \<and> inputs_opened tr = []"
  using assms
proof (induction gs arbitrary: st tr r)
  case Nil
  then show ?case by simp
next
  case (Cons g gs)
  obtain c li arg where g: "g = Getopt c li arg" by (cases g)
  obtain opt fp where st: "st = (opt, fp)" by (cases st)
  obtain tr1 r1 where s1: "parse_opt e g st = (tr1, r1)" by (cases "parse_opt e g st")
  have q1: "written tr1 = [] \<and> runners_created tr1 = [] \<and> inputs_opened tr1 = []"
    using s1 g st parse_opt_quiet by blast
  show ?case
  proof (cases r1)
    case (Inl x)
    with Cons.prems s1 have "tr = tr1" by simp
    with q1 show ?thesis by simp
  next
    case (Inr st1)
    obtain tr2 r2 where s2: "parse_args e gs st1 = (tr2, r2)" by (cases "parse_args e gs st1")
    with Cons.prems s1 Inr have "tr = tr1 @ tr2" by simp
    moreover from Cons.IH [OF s2] have
      "written tr2 = [] \<and> runners_created tr2 = [] \<and> inputs_opened tr2 = []" .
    ultimately show ?thesis using q1
      by (simp add: written_append runners_created_append inputs_opened_append)
  qed
qed

section \<open>Configuration validation\<close>

text \<open>
  Claim C1, as stated: a configuration is rejected if and only if its chunk size is not
  positive, its overlap is at least its chunk size, or its batch size is not positive.
  The driver does not do that. With \<^verbatim>\<open>-c 100 -p 200 -K 1\<close> the overlap is twice the chunk
  size and the run goes through to the end; with \<^verbatim>\<open>-c 100 -p 0 -K 1\<close>, which the claim
  accepts, the run ends in failure at \<^verbatim>\<open>-p\<close>.
\<close>

theorem overlap_not_compared_with_chunk_size:
  "basecaller_main (example_env [example_read ''r1'' [1, 2, 3], example_eof]) example_opt
     [Getopt CHR ''c'' 0 ''100'', Getopt CHR ''p'' 0 ''200'', Getopt CHR ''K'' 0 ''1'']
     [Some ''model'', Some ''reads.blow5'']
   = Some ([Print_summary ''model'' ''reads.blow5''
              (example_opt\<lparr>batch_size := 1, chunk_size := 100, overlap := 200\<rparr>),
            Slow5_open ''reads.blow5'',
            New_ModelRunner (ModelRunner ''model'' ''cpu'' 100 1),
            Write_to_file stdout ''AAA'' ''555'' ''r1'' False,
            Print_performance, Slow5_close], EXIT_SUCCESS)
   \<and> basecaller_main (example_env [example_read ''r1'' [1, 2, 3], example_eof]) example_opt
     [Getopt CHR ''c'' 0 ''100'', Getopt CHR ''p'' 0 ''0'', Getopt CHR ''K'' 0 ''1'']
     [Some ''model'', Some ''reads.blow5'']
   = Some ([ERROR ''Overlap should larger than 0. You entered %d''], EXIT_FAILURE)"
  by (simp add: example_defs driver_defs stage_defs parse_opt.simps)

text \<open>
  Claim C1, amended: a value below 1 for \<^verbatim>\<open>-c\<close>, \<^verbatim>\<open>-p\<close> or \<^verbatim>\<open>-K\<close> ends the run with a
  failure status and one error message as soon as that option is parsed, provided the
  options before it did not end the run; nothing is opened or read. The overlap is never
  compared with the chunk size: a command line whose options are \<^verbatim>\<open>-c\<close>, \<^verbatim>\<open>-p\<close> and
  \<^verbatim>\<open>-K\<close> with values of at least 1 passes the parser without a message, and with two
  positional arguments the driver goes on to the reads.
\<close>

theorem option_validation:
  "(parse_args e pre (opt0, stderr) = (tr, Inr st)
      \<and> c \<in> {CHR ''c'', CHR ''p'', CHR ''K''} \<and> atoi e arg < 1
    \<longrightarrow> (\<exists>msg. basecaller_main e opt0 (pre @ Getopt c li arg # post) args
                  = Some (tr @ [ERROR msg], EXIT_FAILURE)
               \<and> inputs_opened (tr @ [ERROR msg]) = [] \<and> written (tr @ [ERROR msg]) = []))
   \<and> ((\<forall>g \<in> set gs. \<exists>c li arg. g = Getopt c li arg
            \<and> c \<in> {CHR ''c'', CHR ''p'', CHR ''K''} \<and> 1 \<le> atoi e arg)
    \<longrightarrow> (\<exists>opt. parse_args e gs (opt0, stderr) = ([], Inr (opt, stderr))
              \<and> basecaller_main e opt0 gs [Some model, Some data] = run_reads e opt model data))"
proof (intro conjI impI)
  assume a: "parse_args e pre (opt0, stderr) = (tr, Inr st)
      \<and> c \<in> {CHR ''c'', CHR ''p'', CHR ''K''} \<and> atoi e arg < 1"
  obtain opt fp where st: "st = (opt, fp)" by (cases st)
  from a parse_opt_reject [of c e arg li opt fp] obtain msg where
    m: "parse_opt e (Getopt c li arg) (opt, fp) = ([ERROR msg], Inl EXIT_FAILURE)" by blast
  have "parse_args e (pre @ Getopt c li arg # post) (opt0, stderr)
          = (tr @ [ERROR msg], Inl EXIT_FAILURE)"
    using a m st by (simp add: parse_args_append)
  then have "basecaller_main e opt0 (pre @ Getopt c li arg # post) args
          = Some (tr @ [ERROR msg], EXIT_FAILURE)"
    by (simp add: basecaller_main_def)
  moreover from a have "inputs_opened tr = [] \<and> written tr = []"
    using parse_args_quiet by blast
  then have "inputs_opened (tr @ [ERROR msg]) = [] \<and> written (tr @ [ERROR msg]) = []"
    by (simp add: inputs_opened_append written_append)
  ultimately show "\<exists>msg. basecaller_main e opt0 (pre @ Getopt c li arg # post) args
                    = Some (tr @ [ERROR msg], EXIT_FAILURE)
               \<and> inputs_opened (tr @ [ERROR msg]) = [] \<and> written (tr @ [ERROR msg]) = []"
    by blast
next
  assume "\<forall>g \<in> set gs. \<exists>c li arg. g = Getopt c li arg
            \<and> c \<in> {CHR ''c'', CHR ''p'', CHR ''K''} \<and> 1 \<le> atoi e arg"
  from parse_args_accept [OF this] obtain opt where
    p: "parse_args e gs (opt0, stderr) = ([], Inr (opt, stderr))" by blast
  have "basecaller_main e opt0 gs [Some model, Some data] = run_reads e opt model data"
    using p by (simp add: basecaller_main_def split: option.splits prod.splits)
  with p show "\<exists>opt. parse_args e gs (opt0, stderr) = ([], Inr (opt, stderr))
                \<and> basecaller_main e opt0 gs [Some model, Some data] = run_reads e opt model data"
    by blast
qed

theorem option_validation_witness:
  "(parse_args (example_env []) [Getopt CHR ''c'' 0 ''100''] (example_opt, stderr)
      = ([], Inr (example_opt\<lparr>chunk_size := 100\<rparr>, stderr))
    \<and> atoi (example_env []) ''0'' < 1
    \<and> (\<exists>msg. basecaller_main (example_env []) example_opt
                ([Getopt CHR ''c'' 0 ''100''] @ Getopt CHR ''p'' 0 ''0'' # [Getopt CHR ''K'' 0 ''1''])
                [Some ''model'', Some ''reads.blow5'']
              = Some ([] @ [ERROR msg], EXIT_FAILURE)))
   \<and> (1 \<le> atoi (example_env []) ''100'' \<and> 1 \<le> atoi (example_env []) ''200''
    \<and> (\<exists>opt. parse_args (example_env []) [Getopt CHR ''c'' 0 ''100'', Getopt CHR ''p'' 0 ''200'']
                 (example_opt, stderr) = ([], Inr (opt, stderr))
              \<and> basecaller_main (example_env []) example_opt
                  [Getopt CHR ''c'' 0 ''100'', Getopt CHR ''p'' 0 ''200'']
                  [Some ''model'', Some ''reads.blow5'']
                = run_reads (example_env []) opt ''model'' ''reads.blow5''))"
proof -
  have h1: "parse_args (example_env []) [Getopt CHR ''c'' 0 ''100''] (example_opt, stderr)
      = ([], Inr (example_opt\<lparr>chunk_size := 100\<rparr>, stderr))"
    by (simp add: example_defs parse_opt.simps)
  have h2: "atoi (example_env []) ''0'' < 1" "1 \<le> atoi (example_env []) ''100''"
    "1 \<le> atoi (example_env []) ''200''"
    by (simp_all add: example_defs)
  have h3: "\<forall>g \<in> set [Getopt CHR ''c'' 0 ''100'', Getopt CHR ''p'' 0 ''200''].
      \<exists>c li arg. g = Getopt c li arg
        \<and> c \<in> {CHR ''c'', CHR ''p'', CHR ''K''} \<and> 1 \<le> atoi (example_env []) arg"
    using h2 by simp
  show ?thesis
    using h1 h2 h3
      option_validation [where e = "example_env []" and pre = "[Getopt CHR ''c'' 0 ''100'']"
        and ?opt0.0 = example_opt and tr = "[]" and st = "(example_opt\<lparr>chunk_size := 100\<rparr>, stderr)"
        and c = "CHR ''p''" and arg = "''0''" and li = 0 and post = "[Getopt CHR ''K'' 0 ''1'']"
        and args = "[Some ''model'', Some ''reads.blow5'']"
        and gs = "[Getopt CHR ''c'' 0 ''100'', Getopt CHR ''p'' 0 ''200'']"
        and model = "''model''" and data = "''reads.blow5''"]
    by blast
qed

section \<open>The help message\<close>

text \<open>
  Claim C10, as stated: every command line with \<^verbatim>\<open>-h\<close> prints the help message to stdout
  and exits with success, and every command line without \<^verbatim>\<open>-h\<close> and without exactly two
  positional arguments prints it to stderr and exits with failure. Both fail, because the
  options are checked while they are parsed and \<^verbatim>\<open>-h\<close> only sets a flag that is looked at
  after the loop: \<^verbatim>\<open>-h -c 0\<close> ends in failure with the chunk size message and no help, and
  \<^verbatim>\<open>-V\<close> with one positional argument prints the version and exits with success.
\<close>

theorem help_not_printed_after_bad_option:
  "basecaller_main (example_env []) example_opt
     [Getopt CHR ''h'' 0 [], Getopt CHR ''c'' 0 ''0''] []
   = Some ([ERROR ''Chunk size should larger than 0. You entered %d''], EXIT_FAILURE)
   \<and> basecaller_main (example_env []) example_opt
     [Getopt CHR ''V'' 0 []] [Some ''model'']
   = Some ([Fprintf stdout ''slorado %s''], EXIT_SUCCESS)"
  by (simp add: example_defs driver_defs parse_opt.simps)

text \<open>
  Claim C10, amended: when the option loop runs to its end (no option before or after
  \<^verbatim>\<open>-h\<close> ends the run), a command line with \<^verbatim>\<open>-h\<close> gets the help message on stdout and
  exit status success, whatever its positional arguments, and no input is opened, no model
  runner created and no read written; a command line without \<^verbatim>\<open>-h\<close> whose number of
  positional arguments is not two gets the help message on stderr and exit status failure.
\<close>

theorem help_message:
  "(parse_args e gs (opt0, stderr) = (tr, Inr (opt, fp))
      \<and> (\<exists>li arg. Getopt CHR ''h'' li arg \<in> set gs)
    \<longrightarrow> basecaller_main e opt0 gs args = Some (tr @ [Print_help_msg stdout opt], EXIT_SUCCESS)
        \<and> inputs_opened (tr @ [Print_help_msg stdout opt]) = []
        \<and> runners_created (tr @ [Print_help_msg stdout opt]) = []
        \<and> written (tr @ [Print_help_msg stdout opt]) = [])
   \<and> (parse_args e gs (opt0, stderr) = (tr, Inr (opt, fp))
      \<and> (\<nexists>li arg. Getopt CHR ''h'' li arg \<in> set gs) \<and> length args \<noteq> 2
    \<longrightarrow> basecaller_main e opt0 gs args = Some (tr @ [Print_help_msg stderr opt], EXIT_FAILURE))"
proof (intro conjI impI)
  assume a: "parse_args e gs (opt0, stderr) = (tr, Inr (opt, fp))
      \<and> (\<exists>li arg. Getopt CHR ''h'' li arg \<in> set gs)"
  then have fp: "fp = stdout" using parse_args_fp_help by fastforce
  from a have q: "written tr = [] \<and> runners_created tr = [] \<and> inputs_opened tr = []"
    using parse_args_quiet by blast
  from a fp show "basecaller_main e opt0 gs args = Some (tr @ [Print_help_msg stdout opt], EXIT_SUCCESS)"
    by (simp add: basecaller_main_def help_and_exit_def)
  from q show "inputs_opened (tr @ [Print_help_msg stdout opt]) = []"
    by (simp add: inputs_opened_append)
  from q show "runners_created (tr @ [Print_help_msg stdout opt]) = []"
    by (simp add: runners_created_append)
  from q show "written (tr @ [Print_help_msg stdout opt]) = []"
    by (simp add: written_append)
next
  assume a: "parse_args e gs (opt0, stderr) = (tr, Inr (opt, fp))
      \<and> (\<nexists>li arg. Getopt CHR ''h'' li arg \<in> set gs) \<and> length args \<noteq> 2"
  then have fp: "fp = stderr" using parse_args_fp_help by fastforce
  from a fp show "basecaller_main e opt0 gs args = Some (tr @ [Print_help_msg stderr opt], EXIT_FAILURE)"
    by (simp add: basecaller_main_def help_and_exit_def)
qed

theorem help_message_witness:
  "(parse_args (example_env []) [Getopt CHR ''x'' 0 ''cuda:0'', Getopt CHR ''h'' 0 []] (example_opt, stderr)
      = ([], Inr (example_opt\<lparr>device := ''cuda:0''\<rparr>, stdout))
    \<and> basecaller_main (example_env []) example_opt
         [Getopt CHR ''x'' 0 ''cuda:0'', Getopt CHR ''h'' 0 []] []
       = Some ([] @ [Print_help_msg stdout (example_opt\<lparr>device := ''cuda:0''\<rparr>)], EXIT_SUCCESS))
   \<and> (parse_args (example_env []) [Getopt CHR ''x'' 0 ''cuda:0''] (example_opt, stderr)
      = ([], Inr (example_opt\<lparr>device := ''cuda:0''\<rparr>, stderr))
    \<and> length [Some ''model''] \<noteq> 2
    \<and> basecaller_main (example_env []) example_opt [Getopt CHR ''x'' 0 ''cuda:0''] [Some ''model'']
       = Some ([] @ [Print_help_msg stderr (example_opt\<lparr>device := ''cuda:0''\<rparr>)], EXIT_FAILURE))"
proof -
  have h1: "parse_args (example_env []) [Getopt CHR ''x'' 0 ''cuda:0'', Getopt CHR ''h'' 0 []] (example_opt, stderr)
      = ([], Inr (example_opt\<lparr>device := ''cuda:0''\<rparr>, stdout))"
    by (simp add: parse_opt.simps)
  have h2: "\<exists>li arg. Getopt CHR ''h'' li arg \<in> set [Getopt CHR ''x'' 0 ''cuda:0'', Getopt CHR ''h'' 0 []]"
    by simp
  have h3: "parse_args (example_env []) [Getopt CHR ''x'' 0 ''cuda:0''] (example_opt, stderr)
      = ([], Inr (example_opt\<lparr>device := ''cuda:0''\<rparr>, stderr))"
    by (simp add: parse_opt.simps)
  have h4: "\<nexists>li arg. Getopt CHR ''h'' li arg \<in> set [Getopt CHR ''x'' 0 ''cuda:0'']"
    by simp
  have h5: "length [Some ''model''] \<noteq> 2" by simp
  have a: "basecaller_main (example_env []) example_opt
         [Getopt CHR ''x'' 0 ''cuda:0'', Getopt CHR ''h'' 0 []] []
       = Some ([] @ [Print_help_msg stdout (example_opt\<lparr>device := ''cuda:0''\<rparr>)], EXIT_SUCCESS)"
    using h1 h2
      help_message [where e = "example_env []" and gs = "[Getopt CHR ''x'' 0 ''cuda:0'', Getopt CHR ''h'' 0 []]"
        and ?opt0.0 = example_opt and tr = "[]" and opt = "example_opt\<lparr>device := ''cuda:0''\<rparr>"
        and fp = stdout and args = "[]"]
    by blast
  have b: "basecaller_main (example_env []) example_opt [Getopt CHR ''x'' 0 ''cuda:0''] [Some ''model'']
       = Some ([] @ [Print_help_msg stderr (example_opt\<lparr>device := ''cuda:0''\<rparr>)], EXIT_FAILURE)"
    using h3 h4 h5
      help_message [where e = "example_env []" and gs = "[Getopt CHR ''x'' 0 ''cuda:0'']"
        and ?opt0.0 = example_opt and tr = "[]" and opt = "example_opt\<lparr>device := ''cuda:0''\<rparr>"
        and fp = stderr and args = "[Some ''model'']"]
    by blast
  show ?thesis using h1 h3 h5 a b by blast
qed

section \<open>Properties of the read loop\<close>

lemma read_loop_reads:
  assumes "\<forall>n \<in> set oks. 0 \<le> ret n"
  shows "read_loop e opt mr (oks @ rest) =
           (case read_loop e opt mr rest of
              None \<Rightarrow> None
            | Some (tr, x) \<Rightarrow> Some (map (\<lambda>n. basecall_read e opt mr (rec n)) oks @ tr, x))"
  using assms by (induction oks) (auto split: option.splits)

lemma read_loop_stop:
  assumes "ret n < 0"
  shows "read_loop e opt mr (n # rest) =
           Some ([], if slow5_errno n \<noteq> SLOW5_ERR_EOF e then Return EXIT_FAILURE else Break (ret n))"
  using assms by simp


lemma run_reads_outcome:
  assumes "slow5_open e data = Some (oks @ stop # rest)"
    and "\<forall>n \<in> set oks. 0 \<le> ret n"
    and "ret stop < 0"
    and "mr = ModelRunner model (device opt) (chunk_size opt) (batch_size opt)"
  shows "run_reads e opt model data =
      (if slow5_errno stop \<noteq> SLOW5_ERR_EOF e
       then Some ([Print_summary model data opt, Slow5_open data, New_ModelRunner mr]
                    @ map (\<lambda>n. basecall_read e opt mr (rec n)) oks, EXIT_FAILURE)
       else if ret stop \<noteq> SLOW5_ERR_EOF e
       then Some ([Print_summary model data opt, Slow5_open data, New_ModelRunner mr]
                    @ map (\<lambda>n. basecall_read e opt mr (rec n)) oks
                    @ [Fprintf stderr ''Could not reach end of slow5 file. Error code %d''],
                  EXIT_FAILURE)
       else Some ([Print_summary model data opt, Slow5_open data, New_ModelRunner mr]
                    @ map (\<lambda>n. basecall_read e opt mr (rec n)) oks
                    @ [Print_performance, Slow5_close], EXIT_SUCCESS))"
proof -
  have "read_loop e opt mr (oks @ stop # rest) =
      Some (map (\<lambda>n. basecall_read e opt mr (rec n)) oks,
            if slow5_errno stop \<noteq> SLOW5_ERR_EOF e then Return EXIT_FAILURE else Break (ret stop))"
    using read_loop_reads [OF assms(2), of e opt mr "stop # rest"] read_loop_stop [OF assms(3)]
    by simp
  then show ?thesis
    using assms(1) assms(4) by (simp add: run_reads_def Let_def)
qed

lemma basecaller_main_runs:
  assumes "parse_args e gs (opt0, stderr) = (tr0, Inr (opt, stderr))"
  shows "basecaller_main e opt0 gs [Some model, Some data] =
      (case run_reads e opt model data of None \<Rightarrow> None | Some (tr', x) \<Rightarrow> Some (tr0 @ tr', x))"
  using assms by (simp add: basecaller_main_def)

lemma basecall_read_debug_break:
  "basecall_read e (opt\<lparr>debug_break := d\<rparr>) mr r = basecall_read e opt mr r"
  by (simp add: basecall_read_def called_chunks_def)

lemma read_loop_debug_break:
  "read_loop e (opt\<lparr>debug_break := d\<rparr>) mr sp = read_loop e opt mr sp"
  by (induction sp) (auto simp add: basecall_read_debug_break split: option.splits)

lemma read_loop_no_runner:
  "read_loop e opt mr sp = Some (tr, x) \<Longrightarrow> runners_created tr = []"
  by (induction sp arbitrary: tr) (auto simp add: basecall_read_def Let_def split: if_splits option.splits prod.splits)

lemma run_reads_one_runner:
  assumes "run_reads e opt model data = Some (tr, x)"
  shows "length (runners_created tr) \<le> 1"
proof (cases "slow5_open e data")
  case None
  with assms show ?thesis by (auto simp add: run_reads_def)
next
  case (Some sp)
  let ?mr = "ModelRunner model (device opt) (chunk_size opt) (batch_size opt)"
  let ?head = "[Print_summary model data opt, Slow5_open data, New_ModelRunner ?mr]"
  from assms Some obtain tr' y where l: "read_loop e opt ?mr sp = Some (tr', y)"
    by (auto simp add: run_reads_def Let_def split: option.splits)
  have n: "runners_created tr' = []" by (rule read_loop_no_runner [OF l])
  have "\<exists>tail. tr = ?head @ tr' @ tail \<and> runners_created tail = []"
    using assms Some l by (cases y) (auto simp add: run_reads_def Let_def split: if_splits)
  then show ?thesis using n by (auto simp add: runners_created_append)
qed

lemma basecaller_main_one_runner:
  assumes "basecaller_main e opt0 gs args = Some (tr, x)"
  shows "length (runners_created tr) \<le> 1"
proof -
  obtain tr0 r where p: "parse_args e gs (opt0, stderr) = (tr0, r)"
    by (cases "parse_args e gs (opt0, stderr)")
  then have q: "runners_created tr0 = []" using parse_args_quiet by blast
  show ?thesis
  proof (cases r)
    case (Inl y)
    with p assms have "tr = tr0" by (simp add: basecaller_main_def)
    with q show ?thesis by simp
  next
    case (Inr st)
    obtain opt fp where st: "st = (opt, fp)" by (cases st)
    from assms p Inr st consider
        (usage) "tr = tr0 @ [Print_help_msg fp opt]"
      | (run) model data tr' where "run_reads e opt model data = Some (tr', x)" "tr = tr0 @ tr'"
      by (auto simp add: basecaller_main_def help_and_exit_def split: if_splits option.splits)
    then show ?thesis
    proof cases
      case usage
      with q show ?thesis by (simp add: runners_created_append)
    next
      case run
      with q run_reads_one_runner show ?thesis by (simp add: runners_created_append)
    qed
  qed
qed

section \<open>End of input and reader errors\<close>

text \<open>
  Claim C7: when the reader signals the end of the stream, the run stops and the program
  ends with success; when it reports another error, the run ends with failure, nothing is
  written for the read in flight, and the reads written before stay written.
  The reads \<open>oks\<close> are those handed back before the first negative return \<open>stop\<close>. The end
  of the stream is \<^verbatim>\<open>SLOW5_ERR_EOF\<close> both as return value and as \<^verbatim>\<open>slow5_errno\<close>: then the
  run ends with the performance summary and success. Every other negative return ends the
  run with failure after the writes of \<open>oks\<close>: at once and without a message when
  \<^verbatim>\<open>slow5_errno\<close> is not \<^verbatim>\<open>SLOW5_ERR_EOF\<close>, and after the loop with the message of the check
  on the return value when \<^verbatim>\<open>slow5_errno\<close> is \<^verbatim>\<open>SLOW5_ERR_EOF\<close> and the return value is not.
\<close>

theorem end_of_input:
  assumes "parse_args e gs (opt0, stderr) = (tr0, Inr (opt, stderr))"
    and "slow5_open e data = Some (oks @ stop # rest)"
    and "\<forall>n \<in> set oks. 0 \<le> ret n"
    and "ret stop < 0"
    and "mr = ModelRunner model (device opt) (chunk_size opt) (batch_size opt)"
  shows "(ret stop = SLOW5_ERR_EOF e \<and> slow5_errno stop = SLOW5_ERR_EOF e \<longrightarrow>
            basecaller_main e opt0 gs [Some model, Some data] =
              Some (tr0 @ [Print_summary model data opt, Slow5_open data, New_ModelRunner mr]
                      @ map (\<lambda>n. basecall_read e opt mr (rec n)) oks
                      @ [Print_performance, Slow5_close], EXIT_SUCCESS))
       \<and> (slow5_errno stop \<noteq> SLOW5_ERR_EOF e \<longrightarrow>
            basecaller_main e opt0 gs [Some model, Some data] =
              Some (tr0 @ [Print_summary model data opt, Slow5_open data, New_ModelRunner mr]
                      @ map (\<lambda>n. basecall_read e opt mr (rec n)) oks, EXIT_FAILURE))
       \<and> (slow5_errno stop = SLOW5_ERR_EOF e \<and> ret stop \<noteq> SLOW5_ERR_EOF e \<longrightarrow>
            basecaller_main e opt0 gs [Some model, Some data] =
              Some (tr0 @ [Print_summary model data opt, Slow5_open data, New_ModelRunner mr]
                      @ map (\<lambda>n. basecall_read e opt mr (rec n)) oks
                      @ [Fprintf stderr ''Could not reach end of slow5 file. Error code %d''],
                    EXIT_FAILURE))"
  using run_reads_outcome [OF assms(2-5)] basecaller_main_runs [OF assms(1)] by simp

theorem end_of_input_witness:
  "basecaller_main (example_env [example_read ''r1'' [1, 2, 3], example_eof]) example_opt []
     [Some ''model'', Some ''reads.blow5'']
   = Some ([Print_summary ''model'' ''reads.blow5'' example_opt, Slow5_open ''reads.blow5'',
            New_ModelRunner (ModelRunner ''model'' ''cpu'' 8000 512),
            Write_to_file stdout ''AAA'' ''555'' ''r1'' False,
            Print_performance, Slow5_close], EXIT_SUCCESS)
   \<and> basecaller_main
       (example_env [example_read ''r1'' [1, 2, 3], example_error, example_read ''r2'' [4, 5]])
       example_opt [] [Some ''model'', Some ''reads.blow5'']
   = Some ([Print_summary ''model'' ''reads.blow5'' example_opt, Slow5_open ''reads.blow5'',
            New_ModelRunner (ModelRunner ''model'' ''cpu'' 8000 512),
            Write_to_file stdout ''AAA'' ''555'' ''r1'' False], EXIT_FAILURE)
   \<and> basecaller_main
       (example_env [example_read ''r1'' [1, 2, 3],
                     \<lparr>ret = - 2, slow5_errno = - 1, rec = \<lparr>read_id = [], raw_signal = []\<rparr>\<rparr>])
       example_opt [] [Some ''model'', Some ''reads.blow5'']
   = Some ([Print_summary ''model'' ''reads.blow5'' example_opt, Slow5_open ''reads.blow5'',
            New_ModelRunner (ModelRunner ''model'' ''cpu'' 8000 512),
            Write_to_file stdout ''AAA'' ''555'' ''r1'' False,
            Fprintf stderr ''Could not reach end of slow5 file. Error code %d''], EXIT_FAILURE)"
proof -
  let ?mr = "ModelRunner ''model'' ''cpu'' 8000 512"
  let ?bad = "\<lparr>ret = - 2, slow5_errno = - 1, rec = \<lparr>read_id = [], raw_signal = []\<rparr>\<rparr>"
  let ?e1 = "example_env [example_read ''r1'' [1, 2, 3], example_eof]"
  let ?e2 = "example_env [example_read ''r1'' [1, 2, 3], example_error, example_read ''r2'' [4, 5]]"
  let ?e3 = "example_env [example_read ''r1'' [1, 2, 3], ?bad]"
  have p1: "parse_args ?e1 [] (example_opt, stderr) = ([], Inr (example_opt, stderr))" by simp
  have p2: "parse_args ?e2 [] (example_opt, stderr) = ([], Inr (example_opt, stderr))" by simp
  have p3: "parse_args ?e3 [] (example_opt, stderr) = ([], Inr (example_opt, stderr))" by simp
  have o1: "slow5_open ?e1 ''reads.blow5'' = Some ([example_read ''r1'' [1, 2, 3]] @ example_eof # [])"
    by (simp add: example_env_def)
  have o2: "slow5_open ?e2 ''reads.blow5''
      = Some ([example_read ''r1'' [1, 2, 3]] @ example_error # [example_read ''r2'' [4, 5]])"
    by (simp add: example_env_def)
  have o3: "slow5_open ?e3 ''reads.blow5'' = Some ([example_read ''r1'' [1, 2, 3]] @ ?bad # [])"
    by (simp add: example_env_def)
  have ok: "\<forall>n \<in> set [example_read ''r1'' [1, 2, 3]]. 0 \<le> ret n" by (simp add: example_read_def)
  have s1: "ret example_eof < 0" by (simp add: example_eof_def)
  have s2: "ret example_error < 0" by (simp add: example_error_def)
  have s3: "ret ?bad < 0" by simp
  have m: "?mr = ModelRunner ''model'' (device example_opt) (chunk_size example_opt) (batch_size example_opt)"
    by (simp add: example_opt_def)
  have w: "basecall_read ?e1 example_opt ?mr (rec (example_read ''r1'' [1, 2, 3]))
             = Write_to_file stdout ''AAA'' ''555'' ''r1'' False"
          "basecall_read ?e2 example_opt ?mr (rec (example_read ''r1'' [1, 2, 3]))
             = Write_to_file stdout ''AAA'' ''555'' ''r1'' False"
          "basecall_read ?e3 example_opt ?mr (rec (example_read ''r1'' [1, 2, 3]))
             = Write_to_file stdout ''AAA'' ''555'' ''r1'' False"
    by (simp_all add: example_defs driver_defs stage_defs)
  have c1: "ret example_eof = SLOW5_ERR_EOF ?e1 \<and> slow5_errno example_eof = SLOW5_ERR_EOF ?e1"
    by (simp add: example_defs)
  have c2: "slow5_errno example_error \<noteq> SLOW5_ERR_EOF ?e2"
    by (simp add: example_defs)
  have c3: "slow5_errno ?bad = SLOW5_ERR_EOF ?e3 \<and> ret ?bad \<noteq> SLOW5_ERR_EOF ?e3"
    by (simp add: example_defs)
  show ?thesis
    using end_of_input [OF p1 o1 ok s1 m] end_of_input [OF p2 o2 ok s2 m]
      end_of_input [OF p3 o3 ok s3 m] c1 c2 c3 w
    by simp
qed

section \<open>The debug break\<close>

text \<open>
  Claim C5: with \<^verbatim>\<open>--debug-break N\<close> the driver stops after \<open>N\<close> batches. The option is
  parsed and stored, and the loop never reads it (\<open>read_loop_debug_break\<close>). With
  \<^verbatim>\<open>-K 1 --debug-break 1\<close> and a file of three reads, all three reads are basecalled and
  written and the run ends at the end of the file.
\<close>

theorem debug_break_not_used:
  "basecaller_main
     (example_env [example_read ''r1'' [1, 2, 3], example_read ''r2'' [4, 5, 6],
                   example_read ''r3'' [7, 8, 9], example_eof])
     example_opt [Getopt CHR ''K'' 0 ''1'', Getopt (CHR 0x00) 7 ''1'']
     [Some ''model'', Some ''reads.blow5'']
   = Some ([Print_summary ''model'' ''reads.blow5'' (example_opt\<lparr>batch_size := 1, debug_break := 1\<rparr>),
            Slow5_open ''reads.blow5'',
            New_ModelRunner (ModelRunner ''model'' ''cpu'' 8000 1),
            Write_to_file stdout ''AAA'' ''555'' ''r1'' False,
            Write_to_file stdout ''AAA'' ''555'' ''r2'' False,
            Write_to_file stdout ''AAA'' ''555'' ''r3'' False,
            Print_performance, Slow5_close], EXIT_SUCCESS)"
  by (simp add: example_defs driver_defs stage_defs parse_opt.simps)

theorem debug_break_not_used_reads:
  "\<exists>tr. basecaller_main
          (example_env [example_read ''r1'' [1, 2, 3], example_read ''r2'' [4, 5, 6],
                        example_read ''r3'' [7, 8, 9], example_eof])
          example_opt [Getopt CHR ''K'' 0 ''1'', Getopt (CHR 0x00) 7 ''1'']
          [Some ''model'', Some ''reads.blow5''] = Some (tr, EXIT_SUCCESS)
        \<and> map fst (written tr) = [''r1'', ''r2'', ''r3'']"
  using debug_break_not_used by simp

section \<open>Model runners\<close>

text \<open>
  Claim C6: the driver creates as many model runners as \<^verbatim>\<open>-r\<close> asks for. It creates one,
  whatever the value (\<open>basecaller_main_one_runner\<close>): with \<^verbatim>\<open>-r 4\<close> the run uses a single
  runner.
\<close>

theorem one_model_runner:
  "basecaller_main (example_env [example_read ''r1'' [1, 2, 3], example_eof])
     example_opt [Getopt CHR ''r'' 0 ''4''] [Some ''model'', Some ''reads.blow5'']
   = Some ([Print_summary ''model'' ''reads.blow5'' (example_opt\<lparr>num_runners := 4\<rparr>),
            Slow5_open ''reads.blow5'',
            New_ModelRunner (ModelRunner ''model'' ''cpu'' 8000 512),
            Write_to_file stdout ''AAA'' ''555'' ''r1'' False,
            Print_performance, Slow5_close], EXIT_SUCCESS)"
  by (simp add: example_defs driver_defs stage_defs parse_opt.simps)

theorem one_model_runner_count:
  "\<exists>tr. basecaller_main (example_env [example_read ''r1'' [1, 2, 3], example_eof])
          example_opt [Getopt CHR ''r'' 0 ''4''] [Some ''model'', Some ''reads.blow5'']
          = Some (tr, EXIT_SUCCESS)
        \<and> length (runners_created tr) = 1"
  using one_model_runner by simp

section \<open>The chunker of the specification\<close>

lemma chunks_from_props:
  assumes "ov < C"
  shows "\<exists>cs. chunks_from len C ov off = Some cs
           \<and> cs \<noteq> []
           \<and> input_offset (hd cs) = off
           \<and> raw_chunk_size (hd cs) = min C (len - off)
           \<and> (\<forall>c \<in> set cs. input_offset c + raw_chunk_size c \<le> max len off)
           \<and> (\<forall>p. off \<le> p \<and> p < len \<longrightarrow>
                 (\<exists>c \<in> set cs. input_offset c \<le> p \<and> p < input_offset c + raw_chunk_size c))
           \<and> (\<forall>i. Suc i < length cs \<longrightarrow>
                 raw_chunk_size (cs ! i) = C
                 \<and> input_offset (cs ! i) < input_offset (cs ! Suc i)
                 \<and> input_offset (cs ! i) + raw_chunk_size (cs ! i) = input_offset (cs ! Suc i) + ov
                 \<and> ov \<le> raw_chunk_size (cs ! Suc i))"
proof (induction "len - off" arbitrary: off rule: less_induct)
  case less
  show ?case
  proof (cases "len \<le> off + C")
    case True
    then have "chunks_from len C ov off = Some [new_chunk off (len - off)]"
      by (simp add: chunks_from.simps [of len C ov off])
    then show ?thesis using True by (auto simp add: new_chunk_def)
  next
    case False
    let ?off' = "off + (C - ov)"
    have dec: "len - ?off' < len - off" using False assms by arith
    from less [OF dec] obtain cs where
      cs: "chunks_from len C ov ?off' = Some cs" and
      ne: "cs \<noteq> []" and
      hd_off: "input_offset (hd cs) = ?off'" and
      hd_size: "raw_chunk_size (hd cs) = min C (len - ?off')" and
      inside: "\<forall>c \<in> set cs. input_offset c + raw_chunk_size c \<le> max len ?off'" and
      cover: "\<forall>p. ?off' \<le> p \<and> p < len \<longrightarrow>
                 (\<exists>c \<in> set cs. input_offset c \<le> p \<and> p < input_offset c + raw_chunk_size c)" and
      step: "\<forall>i. Suc i < length cs \<longrightarrow>
                 raw_chunk_size (cs ! i) = C
                 \<and> input_offset (cs ! i) < input_offset (cs ! Suc i)
                 \<and> input_offset (cs ! i) + raw_chunk_size (cs ! i) = input_offset (cs ! Suc i) + ov
                 \<and> ov \<le> raw_chunk_size (cs ! Suc i)"
      by blast
    let ?c = "new_chunk off C"
    have res: "chunks_from len C ov off = Some (?c # cs)"
      using False cs by (simp add: chunks_from.simps [of len C ov off])
    have c0: "input_offset ?c = off" "raw_chunk_size ?c = C" by (simp_all add: new_chunk_def)
    have hd0: "cs ! 0 = hd cs" using ne by (simp add: hd_conv_nth)
    have p_hd: "raw_chunk_size (hd (?c # cs)) = min C (len - off)" using False c0 by simp
    have p_inside: "\<forall>c \<in> set (?c # cs). input_offset c + raw_chunk_size c \<le> max len off"
      using inside c0 False assms by auto
    have p_cover: "\<forall>p. off \<le> p \<and> p < len \<longrightarrow>
        (\<exists>c \<in> set (?c # cs). input_offset c \<le> p \<and> p < input_offset c + raw_chunk_size c)"
    proof (intro allI impI)
      fix p assume p: "off \<le> p \<and> p < len"
      show "\<exists>c \<in> set (?c # cs). input_offset c \<le> p \<and> p < input_offset c + raw_chunk_size c"
      proof (cases "p < off + C")
        case True
        then show ?thesis using p c0 by auto
      next
        case False
        then have "?off' \<le> p \<and> p < len" using p assms by arith
        with cover show ?thesis by auto
      qed
    qed
    have p_step: "\<forall>i. Suc i < length (?c # cs) \<longrightarrow>
                 raw_chunk_size ((?c # cs) ! i) = C
                 \<and> input_offset ((?c # cs) ! i) < input_offset ((?c # cs) ! Suc i)
                 \<and> input_offset ((?c # cs) ! i) + raw_chunk_size ((?c # cs) ! i)
                     = input_offset ((?c # cs) ! Suc i) + ov
                 \<and> ov \<le> raw_chunk_size ((?c # cs) ! Suc i)"
    proof (intro allI impI)
      fix i assume i: "Suc i < length (?c # cs)"
      show "raw_chunk_size ((?c # cs) ! i) = C
                 \<and> input_offset ((?c # cs) ! i) < input_offset ((?c # cs) ! Suc i)
                 \<and> input_offset ((?c # cs) ! i) + raw_chunk_size ((?c # cs) ! i)
                     = input_offset ((?c # cs) ! Suc i) + ov
                 \<and> ov \<le> raw_chunk_size ((?c # cs) ! Suc i)"
      proof (cases i)
        case 0
        have "ov \<le> min C (len - ?off')" using False assms by arith
        then show ?thesis using 0 c0 hd0 hd_off hd_size assms by simp
      next
        case (Suc j)
        then have "Suc j < length cs" using i by simp
        with step have "raw_chunk_size (cs ! j) = C
                 \<and> input_offset (cs ! j) < input_offset (cs ! Suc j)
                 \<and> input_offset (cs ! j) + raw_chunk_size (cs ! j) = input_offset (cs ! Suc j) + ov
                 \<and> ov \<le> raw_chunk_size (cs ! Suc j)" by blast
        then show ?thesis using Suc by simp
      qed
    qed
    have p_ne: "?c # cs \<noteq> []" by simp
    have p_off: "input_offset (hd (?c # cs)) = off" using c0 by simp
    show ?thesis
      by (rule exI [of _ "?c # cs"]) (intro conjI res p_ne p_off p_hd p_inside p_cover p_step)
  qed
qed

text \<open>
  Claim C2: for a signal of length \<open>L\<close>, a chunk size \<open>C > 0\<close> and an overlap \<open>ov < C\<close>, the
  chunker returns; its chunks start at offset 0, stay inside the signal and cover every
  offset below \<open>L\<close>; every chunk but the last has length \<open>C\<close>; and each chunk starts after
  its predecessor and exactly \<open>ov\<close> samples before the predecessor's end, with those
  \<open>ov\<close> samples inside both chunks.
\<close>

theorem chunker_covers_signal:
  assumes "0 < C" and "ov < C"
  shows "\<exists>cs. chunks_from_tensor_spec signal C ov = Some cs
           \<and> cs \<noteq> [] \<and> input_offset (hd cs) = 0
           \<and> (\<forall>p < length signal.
                 \<exists>c \<in> set cs. input_offset c \<le> p \<and> p < input_offset c + raw_chunk_size c)
           \<and> (\<forall>c \<in> set cs. input_offset c + raw_chunk_size c \<le> length signal)
           \<and> (\<forall>i. Suc i < length cs \<longrightarrow>
                 raw_chunk_size (cs ! i) = C
                 \<and> input_offset (cs ! i) < input_offset (cs ! Suc i)
                 \<and> input_offset (cs ! i) + raw_chunk_size (cs ! i) = input_offset (cs ! Suc i) + ov
                 \<and> ov \<le> raw_chunk_size (cs ! Suc i))"
proof -
  from chunks_from_props [OF assms(2), of "length signal" 0] obtain cs where
    res: "chunks_from (length signal) C ov 0 = Some cs" and
    ne: "cs \<noteq> []" and
    first: "input_offset (hd cs) = 0" and
    inside: "\<forall>c \<in> set cs. input_offset c + raw_chunk_size c \<le> max (length signal) 0" and
    cover: "\<forall>p. 0 \<le> p \<and> p < length signal \<longrightarrow>
        (\<exists>c \<in> set cs. input_offset c \<le> p \<and> p < input_offset c + raw_chunk_size c)" and
    step: "\<forall>i. Suc i < length cs \<longrightarrow>
                 raw_chunk_size (cs ! i) = C
                 \<and> input_offset (cs ! i) < input_offset (cs ! Suc i)
                 \<and> input_offset (cs ! i) + raw_chunk_size (cs ! i) = input_offset (cs ! Suc i) + ov
                 \<and> ov \<le> raw_chunk_size (cs ! Suc i)"
    by blast
  have res': "chunks_from_tensor_spec signal C ov = Some cs"
    using res by (simp add: chunks_from_tensor_spec_def)
  have inside': "\<forall>c \<in> set cs. input_offset c + raw_chunk_size c \<le> length signal"
    using inside by simp
  have cover': "\<forall>p < length signal.
      \<exists>c \<in> set cs. input_offset c \<le> p \<and> p < input_offset c + raw_chunk_size c"
    using cover by simp
  show ?thesis
    by (rule exI [of _ cs]) (intro conjI res' ne first cover' inside' step)
qed

theorem chunker_covers_signal_witness:
  "(0::nat) < 4 \<and> (1::nat) < 4
   \<and> chunks_from_tensor_spec [0, 0, 0, 0, 0, 0, 0, 0, 0, 0, 0] 4 1
       = Some [new_chunk 0 4, new_chunk 3 4, new_chunk 6 4, new_chunk 9 2]"
proof -
  have a: "(0::nat) < 4" and b: "(1::nat) < 4" by simp_all
  from chunker_covers_signal [OF a b, of "[0, 0, 0, 0, 0, 0, 0, 0, 0, 0, 0]"] obtain cs where
    cs: "chunks_from_tensor_spec [0, 0, 0, 0, 0, 0, 0, 0, 0, 0, 0] 4 1 = Some cs" and
    n: "\<forall>i. Suc i < length cs \<longrightarrow> raw_chunk_size (cs ! i) = 4"
    by blast
  have ev: "chunks_from_tensor_spec [0, 0, 0, 0, 0, 0, 0, 0, 0, 0, 0] 4 1
       = Some [new_chunk 0 4, new_chunk 3 4, new_chunk 6 4, new_chunk 9 2]"
    by (simp add: chunks_from_tensor_spec_def chunks_from.simps new_chunk_def)
  from cs n a b ev show ?thesis by blast
qed

text \<open>
  The chunks of a signal of 16000 samples with chunk size 8000 and overlap 150: three of
  them, the last one clipped to 300 samples. Two chunks of 8000 samples that share 150
  samples reach 15850 samples and cannot cover the signal.
\<close>

lemma chunks_of_16000_samples:
  "chunks_from 16000 8000 150 0 = Some [new_chunk 0 8000, new_chunk 7850 8000, new_chunk 15700 300]"
  by (simp add: chunks_from.simps)

section \<open>The stitcher of the specification\<close>

text \<open>
  Claim C8: stitching a read that has a single chunk returns that chunk's sequence and
  quality string unchanged, whatever the cut function and the overlap.
\<close>

theorem stitch_single_chunk:
  "stitch_chunks_spec find_cut ov [c] = (seq c, qstring c)"
  by (simp add: stitch_chunks_spec_def)

section \<open>Order of the output\<close>








end
